theory Spec2Isabelle
  imports Main
begin

section \<open>The OTLP trace exporter: exporters/otlp/otlptrace/exporter.go\<close>

text \<open>
  The exporter is a small lifecycle controller in front of a transport client. The Go
  struct has a client, a reader/writer lock, the flag \<open>started\<close> and two \<open>sync.Once\<close>
  gates. The embedding keeps the struct as a record and threads, next to it, an
  environment that holds what lies behind the client's interface value (the client's own
  mutable state) and a trace of the effects the exporter performs, in program order.

  Calls are taken one after the other (a serial order of the calls): a \<open>sync.Once\<close> is
  its \<open>done\<close> bit, and every region under \<open>mu\<close> is a single read or write of
  \<open>started\<close>, so the lock itself carries no data. A Go \<open>error\<close> is an option: \<open>None\<close>
  is \<open>nil\<close>.
\<close>

subsection \<open>Errors\<close>

text \<open>\<open>errAlreadyStarted\<close> is the package's sentinel; every other error comes from a client.\<close>

datatype 'e error = errAlreadyStarted | ClientError 'e

subsection \<open>The client\<close>

text \<open>
  Modelled from the spec: the interface \<open>Client\<close> is declared in another file of the
  package. Section 6 of the specification gives its three operations,
  \<open>Start(ctx) -> error\<close>, \<open>UploadTraces(ctx, []WireRecord) -> error\<close> and
  \<open>Stop(ctx) -> error\<close>, which "may fail". Each operation reads and updates the client's
  own state \<open>'c\<close>; \<open>'x\<close> is the context, \<open>'w\<close> a wire record.
\<close>

record ('x, 'c, 'w, 'e) Client =
  Client_Start :: "'x \<Rightarrow> 'c \<Rightarrow> 'e error option \<times> 'c"
  Client_Stop :: "'x \<Rightarrow> 'c \<Rightarrow> 'e error option \<times> 'c"
  Client_UploadTraces :: "'x \<Rightarrow> 'w list \<Rightarrow> 'c \<Rightarrow> 'e error option \<times> 'c"

subsection \<open>The transform\<close>

text \<open>
  Modelled from the spec: \<open>tracetransform.Spans\<close> lives in the package
  \<open>internal/tracetransform\<close>, which is not among the sources. Section 4.1 of the
  specification: "given a sequence of TraceRecord, produce a sequence of WireRecord of
  identical semantic content, order-preserving. An empty input produces an empty output",
  a wire record being "the transport-specific representation of a TraceRecord". The
  encoding \<open>enc\<close> of one record is left open.

  \<open>ExportSpans\<close> below takes the transform as a parameter, so that what is proved about
  it for every transform does not rest on this definition.
\<close>

definition Spans :: "('s \<Rightarrow> 'w) \<Rightarrow> 's list \<Rightarrow> 'w list" where
  "Spans enc ss = map enc ss"

subsection \<open>The exporter and its environment\<close>

text \<open>
  The trace of effects: the writes to \<open>started\<close> and the calls that reach the client,
  each with its arguments.
\<close>

datatype ('x, 'w) event =
    Write_started bool
  | Call_Start 'x
  | Call_Stop 'x
  | Call_UploadTraces 'x "'w list"

record ('x, 'c, 'w) env =
  client_state :: 'c
  events :: "('x, 'w) event list"

record ('x, 'c, 'w, 'e) Exporter =
  client :: "('x, 'c, 'w, 'e) Client"
  started :: bool
  startOnce :: bool
  stopOnce :: bool

subsection \<open>The operations\<close>

text \<open>
  \<^verbatim>\<open>protoSpans := tracetransform.Spans(ss)
  if len(protoSpans) == 0 { return nil }
  return e.client.UploadTraces(ctx, protoSpans)\<close>
\<close>

definition ExportSpans ::
  "('s list \<Rightarrow> 'w list) \<Rightarrow> ('x, 'c, 'w, 'e) Exporter \<Rightarrow> 'x \<Rightarrow> 's list \<Rightarrow> ('x, 'c, 'w) env
     \<Rightarrow> 'e error option \<times> ('x, 'c, 'w, 'e) Exporter \<times> ('x, 'c, 'w) env" where
  "ExportSpans transform e ctx ss env =
     (let protoSpans = transform ss in
      if length protoSpans = 0 then (None, e, env)
      else
        (case Client_UploadTraces (client e) ctx protoSpans (client_state env) of
           (err, c') \<Rightarrow>
             (err, e,
              env\<lparr>client_state := c',
                  events := events env @ [Call_UploadTraces ctx protoSpans]\<rparr>)))"

text \<open>
  \<^verbatim>\<open>var err = errAlreadyStarted
  e.startOnce.Do(func() {
      e.mu.Lock(); e.started = true; e.mu.Unlock()
      err = e.client.Start(ctx)
  })
  return err\<close>
  \<open>Once.Do\<close> runs the function when its \<open>done\<close> bit is clear, and sets the bit when
  the function has returned.
\<close>

definition Start ::
  "('x, 'c, 'w, 'e) Exporter \<Rightarrow> 'x \<Rightarrow> ('x, 'c, 'w) env
     \<Rightarrow> 'e error option \<times> ('x, 'c, 'w, 'e) Exporter \<times> ('x, 'c, 'w) env" where
  "Start e ctx env =
     (if startOnce e then (Some errAlreadyStarted, e, env)
      else
        (let e1 = e\<lparr>started := True\<rparr>;
             env1 = env\<lparr>events := events env @ [Write_started True]\<rparr>
         in case Client_Start (client e1) ctx (client_state env1) of
              (err, c') \<Rightarrow>
                (err, e1\<lparr>startOnce := True\<rparr>,
                 env1\<lparr>client_state := c', events := events env1 @ [Call_Start ctx]\<rparr>)))"

text \<open>
  \<^verbatim>\<open>e.mu.RLock(); started := e.started; e.mu.RUnlock()
  if !started { return nil }
  var err error
  e.stopOnce.Do(func() {
      err = e.client.Stop(ctx)
      e.mu.Lock(); e.started = false; e.mu.Unlock()
  })
  return err\<close>
\<close>

definition Shutdown ::
  "('x, 'c, 'w, 'e) Exporter \<Rightarrow> 'x \<Rightarrow> ('x, 'c, 'w) env
     \<Rightarrow> 'e error option \<times> ('x, 'c, 'w, 'e) Exporter \<times> ('x, 'c, 'w) env" where
  "Shutdown e ctx env =
     (if \<not> started e then (None, e, env)
      else if stopOnce e then (None, e, env)
      else
        (case Client_Stop (client e) ctx (client_state env) of
           (err, c') \<Rightarrow>
             (err, e\<lparr>started := False, stopOnce := True\<rparr>,
              env\<lparr>client_state := c',
                  events := events env @ [Call_Stop ctx, Write_started False]\<rparr>)))"

text \<open>\<^verbatim>\<open>return &Exporter{client: client}\<close>: every other field has its zero value.\<close>

definition NewUnstartedExporter :: "('x, 'c, 'w, 'e) Client \<Rightarrow> ('x, 'c, 'w, 'e) Exporter" where
  "NewUnstartedExporter cl =
     \<lparr>client = cl, started = False, startOnce = False, stopOnce = False\<rparr>"

text \<open>
  \<^verbatim>\<open>exp := NewUnstartedExporter(client)
  if err := exp.Start(ctx); err != nil { return nil, err }
  return exp, nil\<close>
  The returned pointer is an option: \<open>None\<close> is \<open>nil\<close>.
\<close>

definition NewExporter ::
  "'x \<Rightarrow> ('x, 'c, 'w, 'e) Client \<Rightarrow> ('x, 'c, 'w) env
     \<Rightarrow> ('x, 'c, 'w, 'e) Exporter option \<times> 'e error option \<times> ('x, 'c, 'w) env" where
  "NewExporter ctx cl env =
     (let exp = NewUnstartedExporter cl in
      case Start exp ctx env of
        (Some err, exp', env') \<Rightarrow> (None, Some err, env')
      | (None, exp', env') \<Rightarrow> (Some exp', None, env'))"

subsection \<open>Sequences of calls\<close>

text \<open>A caller's script: the calls made on one exporter, in order, and their results.\<close>

datatype ('x, 's) op = OpStart 'x | OpShutdown 'x | OpExportSpans 'x "'s list"

fun step ::
  "('s list \<Rightarrow> 'w list) \<Rightarrow> ('x, 's) op \<Rightarrow> ('x, 'c, 'w, 'e) Exporter \<Rightarrow> ('x, 'c, 'w) env
     \<Rightarrow> 'e error option \<times> ('x, 'c, 'w, 'e) Exporter \<times> ('x, 'c, 'w) env" where
  "step transform (OpStart ctx) e env = Start e ctx env"
| "step transform (OpShutdown ctx) e env = Shutdown e ctx env"
| "step transform (OpExportSpans ctx ss) e env = ExportSpans transform e ctx ss env"

fun exec ::
  "('s list \<Rightarrow> 'w list) \<Rightarrow> ('x, 's) op list \<Rightarrow> ('x, 'c, 'w, 'e) Exporter \<Rightarrow> ('x, 'c, 'w) env
     \<Rightarrow> 'e error option list \<times> ('x, 'c, 'w, 'e) Exporter \<times> ('x, 'c, 'w) env" where
  "exec transform [] e env = ([], e, env)"
| "exec transform (a # as) e env =
     (case step transform a e env of
        (r, e', env') \<Rightarrow>
          (case exec transform as e' env' of
             (rs, e'', env'') \<Rightarrow> (r # rs, e'', env'')))"

fun is_OpStart :: "('x, 's) op \<Rightarrow> bool" where
  "is_OpStart (OpStart ctx) = True"
| "is_OpStart _ = False"

fun is_OpShutdown :: "('x, 's) op \<Rightarrow> bool" where
  "is_OpShutdown (OpShutdown ctx) = True"
| "is_OpShutdown _ = False"

fun is_Call_Start :: "('x, 'w) event \<Rightarrow> bool" where
  "is_Call_Start (Call_Start ctx) = True"
| "is_Call_Start _ = False"

fun is_Call_Stop :: "('x, 'w) event \<Rightarrow> bool" where
  "is_Call_Stop (Call_Stop ctx) = True"
| "is_Call_Stop _ = False"


text \<open>The number of calls of one kind that have reached the client.\<close>

definition calls :: "(('x, 'w) event \<Rightarrow> bool) \<Rightarrow> ('x, 'c, 'w) env \<Rightarrow> nat" where
  "calls kind env = length (filter kind (events env))"

subsection \<open>The lifecycle of the specification\<close>

text \<open>
  The specification speaks of a state \<open>Idle\<close>, \<open>Running\<close> or \<open>Stopped\<close>; the code has
  no such field. \<open>ControllerState\<close> reads it off the struct: \<open>Stopped\<close> once the stop
  gate has fired, else \<open>Running\<close> while \<open>started\<close> is set, else \<open>Idle\<close>.
  \<open>lifecycle\<close> is the state machine as section 3 of the specification words it.
\<close>

datatype ControllerState = Idle | Running | Stopped

definition ControllerState :: "('x, 'c, 'w, 'e) Exporter \<Rightarrow> ControllerState" where
  "ControllerState e = (if stopOnce e then Stopped else if started e then Running else Idle)"






subsection \<open>Clients and environments for the examples\<close>

text \<open>
  A client that answers \<open>Start\<close> with \<open>r1\<close>, \<open>Stop\<close> with \<open>r2\<close> and \<open>UploadTraces\<close>
  with \<open>r3\<close>, and counts, in its state, the calls it has received.
\<close>

definition answering ::
  "string error option \<Rightarrow> string error option \<Rightarrow> string error option
     \<Rightarrow> (unit, nat, nat, string) Client" where
  "answering r1 r2 r3 =
     \<lparr>Client_Start = (\<lambda>ctx c. (r1, Suc c)),
      Client_Stop = (\<lambda>ctx c. (r2, Suc c)),
      Client_UploadTraces = (\<lambda>ctx ws c. (r3, Suc c))\<rparr>"

text \<open>The client whose every operation fails, and the one whose every operation succeeds.\<close>

definition down :: "(unit, nat, nat, string) Client" where
  "down = answering (Some (ClientError ''no route'')) (Some (ClientError ''no route''))
            (Some (ClientError ''no route''))"

definition up :: "(unit, nat, nat, string) Client" where
  "up = answering None None None"

definition env0 :: "(unit, nat, nat) env" where
  "env0 = \<lparr>client_state = 0, events = []\<rparr>"



section \<open>Properties\<close>

subsection \<open>Exporting\<close>

lemma ExportSpans_empty:
  "transform ss = [] \<Longrightarrow> ExportSpans transform e ctx ss env = (None, e, env)"
  by (simp add: ExportSpans_def)

lemma ExportSpans_nonempty:
  "transform ss \<noteq> [] \<Longrightarrow>
   ExportSpans transform e ctx ss env =
     (fst (Client_UploadTraces (client e) ctx (transform ss) (client_state env)), e,
      env\<lparr>client_state := snd (Client_UploadTraces (client e) ctx (transform ss) (client_state env)),
          events := events env @ [Call_UploadTraces ctx (transform ss)]\<rparr>)"
  by (simp add: ExportSpans_def Let_def split: prod.splits)

text \<open>
  C7. An \<open>ExportSpans\<close> call whose input is empty, or whose transformed sequence is
  empty, returns \<open>nil\<close> and leaves the environment as it was: nothing reaches the client.
  The transform is any function that sends the empty input to the empty output (the
  contract of section 4.1).
\<close>

theorem ExportSpans_nothing_to_send:
  assumes "transform [] = []"
    and "ss = [] \<or> transform ss = []"
  shows "ExportSpans transform e ctx ss env = (None, e, env)"
proof -
  from assms have "transform ss = []" by auto
  then show ?thesis by (rule ExportSpans_empty)
qed

theorem ExportSpans_nothing_to_send_witness:
  "ExportSpans (Spans Suc) (NewUnstartedExporter down) () [] env0
     = (None, NewUnstartedExporter down, env0)
   \<and> ExportSpans (\<lambda>ss. []) (NewUnstartedExporter down) ()
        [7::nat] env0
     = (None, NewUnstartedExporter down, env0)"
  by (rule conjI; rule ExportSpans_nothing_to_send; simp add: Spans_def)

text \<open>
  C9. \<open>ExportSpans\<close> returns the exporter it was given, so \<open>started\<close> and the two gates
  are as before; and its error and its effect on the client and the trace are the same
  whatever the values of \<open>started\<close>, \<open>startOnce\<close> and \<open>stopOnce\<close>: they depend on the
  records, the context and the client alone.
\<close>

theorem ExportSpans_frame:
  "fst (snd (ExportSpans transform e ctx ss env)) = e
   \<and> fst (ExportSpans transform (e\<lparr>started := a, startOnce := b, stopOnce := c\<rparr>) ctx ss env)
       = fst (ExportSpans transform e ctx ss env)
   \<and> snd (snd (ExportSpans transform (e\<lparr>started := a, startOnce := b, stopOnce := c\<rparr>) ctx ss env))
       = snd (snd (ExportSpans transform e ctx ss env))"
  by (simp add: ExportSpans_def Let_def split: prod.splits)




text \<open>
  The claim C1 as it was worded fails: on an exporter that was never started, and on one
  that was started and shut down, a batch of one record reaches the client, and the
  client's error comes back.
\<close>

theorem ExportSpans_not_dropped:
  "ControllerState (NewUnstartedExporter (answering None None (Some (ClientError ''refused''))))
     = Idle
   \<and> fst (ExportSpans (Spans Suc)
            (NewUnstartedExporter (answering None None (Some (ClientError ''refused'')))) () [1]
            env0)
     = Some (ClientError ''refused'')
   \<and> events (snd (snd (ExportSpans (Spans Suc)
            (NewUnstartedExporter (answering None None (Some (ClientError ''refused'')))) () [1]
            env0)))
     = [Call_UploadTraces () [2]]
   \<and> ControllerState (fst (snd (exec (Spans Suc) [OpStart (), OpShutdown ()]
            (NewUnstartedExporter (answering None None (Some (ClientError ''refused'')))) env0)))
     = Stopped
   \<and> fst (exec (Spans Suc) [OpStart (), OpShutdown (), OpExportSpans () [1]]
            (NewUnstartedExporter (answering None None (Some (ClientError ''refused'')))) env0)
     = [None, None, Some (ClientError ''refused'')]
   \<and> events (snd (snd (exec (Spans Suc) [OpStart (), OpShutdown (), OpExportSpans () [1]]
            (NewUnstartedExporter (answering None None (Some (ClientError ''refused'')))) env0)))
     = [Write_started True, Call_Start (), Call_Stop (), Write_started False,
        Call_UploadTraces () [2]]"
  by (simp add: ExportSpans_def Start_def Shutdown_def Spans_def ControllerState_def
      NewUnstartedExporter_def answering_def env0_def)

text \<open>
  C1, as the code has it. Before the exporter is running and after it has stopped,
  \<open>ExportSpans\<close> does what it does while running: with nothing to send it returns
  \<open>nil\<close> and leaves the client alone, and otherwise it calls the client's
  \<open>UploadTraces\<close> once with the transformed batch and returns the client's answer.
\<close>

theorem ExportSpans_outside_Running:
  assumes "ControllerState e = Idle \<or> ControllerState e = Stopped"
  shows "ExportSpans transform e ctx ss env =
           (if transform ss = [] then (None, e, env)
            else
              (fst (Client_UploadTraces (client e) ctx (transform ss) (client_state env)), e,
               env\<lparr>client_state :=
                     snd (Client_UploadTraces (client e) ctx (transform ss) (client_state env)),
                   events := events env @ [Call_UploadTraces ctx (transform ss)]\<rparr>))"
  by (simp add: ExportSpans_empty ExportSpans_nonempty)

theorem ExportSpans_outside_Running_witness:
  "(ControllerState (NewUnstartedExporter down) = Idle
      \<or> ControllerState (NewUnstartedExporter down) = Stopped)
   \<and> ExportSpans (Spans Suc) (NewUnstartedExporter down) () [4, 5] env0
     = (Some (ClientError ''no route''), NewUnstartedExporter down,
        \<lparr>client_state = 1, events = [Call_UploadTraces () [5, 6]]\<rparr>)
   \<and> (ControllerState \<lparr>client = up, started = False, startOnce = True, stopOnce = True\<rparr> = Idle
      \<or> ControllerState \<lparr>client = up, started = False, startOnce = True, stopOnce = True\<rparr>
          = Stopped)
   \<and> ExportSpans (Spans Suc) \<lparr>client = up, started = False, startOnce = True, stopOnce = True\<rparr>
        () [] env0
     = (None, \<lparr>client = up, started = False, startOnce = True, stopOnce = True\<rparr>, env0)"
proof -
  have a: "ControllerState (NewUnstartedExporter down) = Idle
      \<or> ControllerState (NewUnstartedExporter down) = Stopped"
    by (simp add: ControllerState_def NewUnstartedExporter_def)
  have b: "ControllerState \<lparr>client = up, started = False, startOnce = True, stopOnce = True\<rparr> = Idle
      \<or> ControllerState \<lparr>client = up, started = False, startOnce = True, stopOnce = True\<rparr>
          = Stopped"
    by (simp add: ControllerState_def)
  from ExportSpans_outside_Running [OF a, of "Spans Suc" "()" "[4, 5]" env0]
    ExportSpans_outside_Running [OF b, of "Spans Suc" "()" "[]" env0] a b
  show ?thesis
    by (simp add: Spans_def NewUnstartedExporter_def down_def answering_def env0_def)
qed

subsection \<open>One call\<close>

lemma Start_fired: "startOnce e \<Longrightarrow> Start e ctx env = (Some errAlreadyStarted, e, env)"
  by (simp add: Start_def)

lemma Start_first:
  "\<not> startOnce e \<Longrightarrow>
   Start e ctx env =
     (fst (Client_Start (client e) ctx (client_state env)),
      e\<lparr>started := True, startOnce := True\<rparr>,
      env\<lparr>client_state := snd (Client_Start (client e) ctx (client_state env)),
          events := events env @ [Write_started True, Call_Start ctx]\<rparr>)"
  by (simp add: Start_def Let_def split: prod.splits)

lemma Shutdown_not_started: "\<not> started e \<Longrightarrow> Shutdown e ctx env = (None, e, env)"
  by (simp add: Shutdown_def)

lemma Shutdown_fired: "stopOnce e \<Longrightarrow> Shutdown e ctx env = (None, e, env)"
  by (simp add: Shutdown_def)

lemma Shutdown_first:
  "started e \<Longrightarrow> \<not> stopOnce e \<Longrightarrow>
   Shutdown e ctx env =
     (fst (Client_Stop (client e) ctx (client_state env)),
      e\<lparr>started := False, stopOnce := True\<rparr>,
      env\<lparr>client_state := snd (Client_Stop (client e) ctx (client_state env)),
          events := events env @ [Call_Stop ctx, Write_started False]\<rparr>)"
  by (simp add: Shutdown_def split: prod.splits)

lemma ExportSpans_exporter: "ExportSpans transform e ctx ss env = (r, e', env') \<Longrightarrow> e' = e"
  by (auto simp: ExportSpans_def Let_def split: if_splits prod.splits)

lemma ExportSpans_calls:
  "ExportSpans transform e ctx ss env = (r, e', env') \<Longrightarrow>
   calls is_Call_Start env' = calls is_Call_Start env \<and>
   calls is_Call_Stop env' = calls is_Call_Stop env"
  by (auto simp: ExportSpans_def Let_def calls_def split: if_splits prod.splits)

subsection \<open>The gates and the calls that reached the client\<close>

text \<open>
  What holds of an exporter and its trace from construction on: each gate has fired
  exactly when its call has reached the client, once; \<open>started\<close> is set only between
  the two.
\<close>

lemma gates_step:
  assumes "step transform a e env = (r, e', env')"
    and "calls is_Call_Start env = (if startOnce e then 1 else 0)"
    and "calls is_Call_Stop env = (if stopOnce e then 1 else 0)"
    and "started e \<or> stopOnce e \<longrightarrow> startOnce e"
  shows "calls is_Call_Start env' = (if startOnce e' then 1 else 0)
       \<and> calls is_Call_Stop env' = (if stopOnce e' then 1 else 0)
       \<and> (started e' \<or> stopOnce e' \<longrightarrow> startOnce e')"
proof (cases a)
  case (OpStart ctx)
  show ?thesis
  proof (cases "startOnce e")
    case True
    with assms OpStart show ?thesis by (simp add: Start_fired)
  next
    case False
    with assms OpStart show ?thesis by (auto simp: Start_first calls_def)
  qed
next
  case (OpShutdown ctx)
  show ?thesis
  proof (cases "started e \<and> \<not> stopOnce e")
    case True
    with assms OpShutdown show ?thesis by (auto simp: Shutdown_first calls_def)
  next
    case False
    then have "Shutdown e ctx env = (None, e, env)"
      by (auto simp: Shutdown_not_started Shutdown_fired)
    with assms OpShutdown show ?thesis by simp
  qed
next
  case (OpExportSpans ctx ss)
  with assms have ex: "ExportSpans transform e ctx ss env = (r, e', env')" by simp
  from ExportSpans_exporter [OF ex] ExportSpans_calls [OF ex] assms show ?thesis by simp
qed

lemma gates_exec:
  assumes "exec transform ops e env = (rs, e', env')"
    and "calls is_Call_Start env = (if startOnce e then 1 else 0)"
    and "calls is_Call_Stop env = (if stopOnce e then 1 else 0)"
    and "started e \<or> stopOnce e \<longrightarrow> startOnce e"
  shows "calls is_Call_Start env' = (if startOnce e' then 1 else 0)
       \<and> calls is_Call_Stop env' = (if stopOnce e' then 1 else 0)
       \<and> (started e' \<or> stopOnce e' \<longrightarrow> startOnce e')"
  using assms
proof (induction ops arbitrary: e env rs)
  case Nil
  then show ?case by simp
next
  case (Cons a ops)
  obtain r e1 env1 where st: "step transform a e env = (r, e1, env1)"
    by (cases "step transform a e env") auto
  obtain rs1 where ex: "exec transform ops e1 env1 = (rs1, e', env')"
    using Cons.prems(1) st by (auto split: prod.splits)
  from gates_step [OF st Cons.prems(2) Cons.prems(3) Cons.prems(4)]
  have "calls is_Call_Start env1 = (if startOnce e1 then 1 else 0)"
    and "calls is_Call_Stop env1 = (if stopOnce e1 then 1 else 0)"
    and "started e1 \<or> stopOnce e1 \<longrightarrow> startOnce e1"
    by blast+
  from Cons.IH [OF ex this] show ?case .
qed

lemma startOnce_step:
  "step transform a e env = (r, e', env') \<Longrightarrow> startOnce e \<or> is_OpStart a \<Longrightarrow> startOnce e'"
  by (cases a; cases "startOnce e")
     (auto simp: Start_fired Start_first Shutdown_def ExportSpans_def Let_def
           split: if_splits prod.splits)

lemma startOnce_exec:
  "exec transform ops e env = (rs, e', env') \<Longrightarrow> startOnce e \<or> list_ex is_OpStart ops
     \<Longrightarrow> startOnce e'"
proof (induction ops arbitrary: e env rs)
  case Nil
  then show ?case by simp
next
  case (Cons a ops)
  obtain r e1 env1 where st: "step transform a e env = (r, e1, env1)"
    by (cases "step transform a e env") auto
  obtain rs1 where ex: "exec transform ops e1 env1 = (rs1, e', env')"
    using Cons.prems(1) st by (auto split: prod.splits)
  show ?case
  proof (cases "startOnce e \<or> is_OpStart a")
    case True
    from startOnce_step [OF st True] have "startOnce e1" .
    with Cons.IH [OF ex] show ?thesis by simp
  next
    case False
    with Cons.prems(2) have "list_ex is_OpStart ops" by simp
    with Cons.IH [OF ex] show ?thesis by simp
  qed
qed

text \<open>
  C3. Whatever calls are made on an exporter from its construction on, \<open>Start\<close> has
  reached the client at most once and \<open>Stop\<close> at most once; and when a \<open>Start\<close> is
  among the calls made so far, a further \<open>Start\<close> returns \<open>errAlreadyStarted\<close> and
  leaves the exporter, the client and the trace as they were, whatever the client answered
  to the first.
\<close>

theorem client_contacted_at_most_once:
  assumes "exec transform ops (NewUnstartedExporter cl) \<lparr>client_state = c, events = []\<rparr>
             = (rs, e, env)"
  shows "calls is_Call_Start env \<le> 1
       \<and> calls is_Call_Stop env \<le> 1
       \<and> (list_ex is_OpStart ops \<longrightarrow> Start e ctx env = (Some errAlreadyStarted, e, env))"
proof -
  have "calls is_Call_Start env = (if startOnce e then 1 else 0)
      \<and> calls is_Call_Stop env = (if stopOnce e then 1 else 0)
      \<and> (started e \<or> stopOnce e \<longrightarrow> startOnce e)"
    by (rule gates_exec [OF assms]) (simp_all add: calls_def NewUnstartedExporter_def)
  moreover have "list_ex is_OpStart ops \<longrightarrow> startOnce e"
    using startOnce_exec [OF assms] by simp
  ultimately show ?thesis by (simp add: Start_fired)
qed

theorem client_contacted_at_most_once_witness:
  "exec (Spans Suc) [OpShutdown (), OpStart (), OpStart (), OpShutdown (), OpShutdown (), OpStart ()]
     (NewUnstartedExporter down) \<lparr>client_state = 0, events = []\<rparr>
     = ([None, Some (ClientError ''no route''), Some errAlreadyStarted,
         Some (ClientError ''no route''), None, Some errAlreadyStarted],
        \<lparr>client = down, started = False, startOnce = True, stopOnce = True\<rparr>,
        \<lparr>client_state = 2,
         events = [Write_started True, Call_Start (), Call_Stop (), Write_started False]\<rparr>)
   \<and> calls is_Call_Start
        \<lparr>client_state = 2::nat,
         events = [Write_started True, Call_Start (), Call_Stop (), Write_started False
                   :: (unit, nat) event]\<rparr> \<le> 1
   \<and> calls is_Call_Stop
        \<lparr>client_state = 2::nat,
         events = [Write_started True, Call_Start (), Call_Stop (), Write_started False
                   :: (unit, nat) event]\<rparr> \<le> 1
   \<and> list_ex is_OpStart
        [OpShutdown (), OpStart (), OpStart (), OpShutdown (), OpShutdown (), OpStart ()
         :: (unit, nat) op]
   \<and> Start \<lparr>client = down, started = False, startOnce = True, stopOnce = True\<rparr> ()
        \<lparr>client_state = 2,
         events = [Write_started True, Call_Start (), Call_Stop (), Write_started False]\<rparr>
     = (Some errAlreadyStarted,
        \<lparr>client = down, started = False, startOnce = True, stopOnce = True\<rparr>,
        \<lparr>client_state = 2,
         events = [Write_started True, Call_Start (), Call_Stop (), Write_started False]\<rparr>)"
proof -
  have run: "exec (Spans Suc)
      [OpShutdown (), OpStart (), OpStart (), OpShutdown (), OpShutdown (), OpStart ()]
      (NewUnstartedExporter down) \<lparr>client_state = 0, events = []\<rparr>
     = ([None, Some (ClientError ''no route''), Some errAlreadyStarted,
         Some (ClientError ''no route''), None, Some errAlreadyStarted],
        \<lparr>client = down, started = False, startOnce = True, stopOnce = True\<rparr>,
        \<lparr>client_state = 2,
         events = [Write_started True, Call_Start (), Call_Stop (), Write_started False]\<rparr>)"
    by (simp add: Start_def Shutdown_def NewUnstartedExporter_def down_def answering_def)
  from client_contacted_at_most_once [OF run, of "()"] run show ?thesis by simp
qed


subsection \<open>Shutdown\<close>

lemma never_started_step:
  "step transform a e env = (r, e', env') \<Longrightarrow> \<not> is_OpStart a \<Longrightarrow> \<not> started e \<Longrightarrow> e' = e"
  by (cases a) (auto simp: Shutdown_not_started dest: ExportSpans_exporter)

lemma never_started_exec:
  "exec transform ops e env = (rs, e', env') \<Longrightarrow> \<not> list_ex is_OpStart ops \<Longrightarrow> \<not> started e
     \<Longrightarrow> e' = e"
proof (induction ops arbitrary: env rs)
  case Nil
  then show ?case by simp
next
  case (Cons a ops)
  obtain r e1 env1 where st: "step transform a e env = (r, e1, env1)"
    by (cases "step transform a e env") auto
  obtain rs1 where ex: "exec transform ops e1 env1 = (rs1, e', env')"
    using Cons.prems(1) st by (auto split: prod.splits)
  from Cons.prems have "\<not> is_OpStart a" and rest: "\<not> list_ex is_OpStart ops" by simp_all
  from never_started_step [OF st this(1) Cons.prems(3)] have "e1 = e" .
  with Cons.IH [of env1 rs1] ex rest Cons.prems(3) show ?case by simp
qed

text \<open>
  C6. On an exporter that was constructed and never started, whatever \<open>Shutdown\<close> and
  \<open>ExportSpans\<close> calls came before, a \<open>Shutdown\<close> call returns \<open>nil\<close> and leaves the
  exporter, the client and the trace as they were: no operation of the client is invoked.
\<close>

theorem Shutdown_never_started:
  assumes "\<not> list_ex is_OpStart ops"
    and "exec transform ops (NewUnstartedExporter cl) env = (rs, e, env')"
  shows "e = NewUnstartedExporter cl \<and> Shutdown e ctx env' = (None, e, env')"
proof -
  have "\<not> started (NewUnstartedExporter cl)" by (simp add: NewUnstartedExporter_def)
  from never_started_exec [OF assms(2) assms(1) this] have e: "e = NewUnstartedExporter cl" .
  then have "\<not> started e" by (simp add: NewUnstartedExporter_def)
  with e show ?thesis by (simp add: Shutdown_not_started)
qed

theorem Shutdown_never_started_witness:
  "\<not> list_ex is_OpStart [OpShutdown (), OpExportSpans () [5], OpShutdown () :: (unit, nat) op]
   \<and> exec (Spans Suc) [OpShutdown (), OpExportSpans () [5], OpShutdown ()]
        (NewUnstartedExporter down) env0
     = ([None, Some (ClientError ''no route''), None], NewUnstartedExporter down,
        \<lparr>client_state = 1, events = [Call_UploadTraces () [6]]\<rparr>)
   \<and> Shutdown (NewUnstartedExporter down) ()
        \<lparr>client_state = 1, events = [Call_UploadTraces () [6]]\<rparr>
     = (None, NewUnstartedExporter down,
        \<lparr>client_state = 1, events = [Call_UploadTraces () [6]]\<rparr>)"
proof -
  have no: "\<not> list_ex is_OpStart [OpShutdown (), OpExportSpans () [5], OpShutdown ()
              :: (unit, nat) op]"
    by simp
  have run: "exec (Spans Suc) [OpShutdown (), OpExportSpans () [5], OpShutdown ()]
        (NewUnstartedExporter down) env0
     = ([None, Some (ClientError ''no route''), None], NewUnstartedExporter down,
        \<lparr>client_state = 1, events = [Call_UploadTraces () [6]]\<rparr>)"
    by (simp add: Shutdown_def ExportSpans_def Spans_def NewUnstartedExporter_def down_def
        answering_def env0_def)
  from Shutdown_never_started [OF no run, of "()"] no run show ?thesis by simp
qed

lemma stopped_step:
  assumes "step transform a e env = (r, e', env')" and "stopOnce e"
  shows "stopOnce e' \<and> calls is_Call_Stop env' = calls is_Call_Stop env
       \<and> (is_OpShutdown a \<longrightarrow> r = None)"
proof (cases a)
  case (OpStart ctx)
  with assms show ?thesis
    by (cases "startOnce e") (auto simp: Start_fired Start_first calls_def)
next
  case (OpShutdown ctx)
  with assms show ?thesis by (simp add: Shutdown_fired)
next
  case (OpExportSpans ctx ss)
  with assms have ex: "ExportSpans transform e ctx ss env = (r, e', env')" by simp
  from ExportSpans_exporter [OF ex] ExportSpans_calls [OF ex] assms OpExportSpans
  show ?thesis by simp
qed

lemma stopped_exec:
  assumes "exec transform ops e env = (rs, e', env')" and "stopOnce e"
  shows "stopOnce e' \<and> calls is_Call_Stop env' = calls is_Call_Stop env
       \<and> (\<forall>(a, r) \<in> set (zip ops rs). is_OpShutdown a \<longrightarrow> r = None)"
  using assms
proof (induction ops arbitrary: e env rs)
  case Nil
  then show ?case by simp
next
  case (Cons a ops)
  obtain r e1 env1 where st: "step transform a e env = (r, e1, env1)"
    by (cases "step transform a e env") auto
  obtain rs1 where ex: "exec transform ops e1 env1 = (rs1, e', env')"
    using Cons.prems(1) st by (auto split: prod.splits)
  from Cons.prems(1) st ex have rs: "rs = r # rs1" by simp
  from stopped_step [OF st Cons.prems(2)]
  have s1: "stopOnce e1" and c1: "calls is_Call_Stop env1 = calls is_Call_Stop env"
    and r1: "is_OpShutdown a \<longrightarrow> r = None"
    by blast+
  from Cons.IH [OF ex s1] c1 r1 rs show ?case by simp
qed

text \<open>
  C2, as the code has it. On an exporter that is running, the first \<open>Shutdown\<close> returns
  what the client's \<open>Stop\<close> returned, and that is the one call of \<open>Stop\<close>; whatever
  calls follow, every later \<open>Shutdown\<close> returns \<open>nil\<close>, and \<open>Stop\<close> is not invoked
  again.
\<close>

theorem Shutdown_first_result_then_nil:
  assumes "ControllerState e = Running"
    and "Shutdown e ctx env = (r, e1, env1)"
    and "exec transform ops e1 env1 = (rs, e2, env2)"
  shows "r = fst (Client_Stop (client e) ctx (client_state env))
       \<and> calls is_Call_Stop env1 = Suc (calls is_Call_Stop env)
       \<and> calls is_Call_Stop env2 = calls is_Call_Stop env1
       \<and> (\<forall>(a, r') \<in> set (zip ops rs). is_OpShutdown a \<longrightarrow> r' = None)"
proof -
  from assms(1) have run: "started e" "\<not> stopOnce e"
    by (auto simp: ControllerState_def split: if_splits)
  from assms(2) Shutdown_first [OF run, of ctx env]
  have r: "r = fst (Client_Stop (client e) ctx (client_state env))"
    and e1: "e1 = e\<lparr>started := False, stopOnce := True\<rparr>"
    and env1: "env1 = env\<lparr>client_state := snd (Client_Stop (client e) ctx (client_state env)),
                          events := events env @ [Call_Stop ctx, Write_started False]\<rparr>"
    by simp_all
  from e1 have "stopOnce e1" by simp
  from stopped_exec [OF assms(3) this] r env1 show ?thesis by (simp add: calls_def)
qed

theorem Shutdown_first_result_then_nil_witness:
  "ControllerState \<lparr>client = answering None (Some (ClientError ''flush failed'')) None,
                    started = True, startOnce = True, stopOnce = False\<rparr> = Running
   \<and> Shutdown \<lparr>client = answering None (Some (ClientError ''flush failed'')) None,
               started = True, startOnce = True, stopOnce = False\<rparr> () env0
     = (Some (ClientError ''flush failed''),
        \<lparr>client = answering None (Some (ClientError ''flush failed'')) None,
         started = False, startOnce = True, stopOnce = True\<rparr>,
        \<lparr>client_state = 1, events = [Call_Stop (), Write_started False]\<rparr>)
   \<and> exec (Spans Suc) [OpShutdown (), OpStart (), OpShutdown ()]
        \<lparr>client = answering None (Some (ClientError ''flush failed'')) None,
         started = False, startOnce = True, stopOnce = True\<rparr>
        \<lparr>client_state = 1, events = [Call_Stop (), Write_started False]\<rparr>
     = ([None, Some errAlreadyStarted, None],
        \<lparr>client = answering None (Some (ClientError ''flush failed'')) None,
         started = False, startOnce = True, stopOnce = True\<rparr>,
        \<lparr>client_state = 1, events = [Call_Stop (), Write_started False]\<rparr>)
   \<and> calls is_Call_Stop
        \<lparr>client_state = 1::nat, events = [Call_Stop (), Write_started False :: (unit, nat) event]\<rparr>
     = Suc (calls is_Call_Stop env0)"
proof -
  let ?cl = "answering None (Some (ClientError ''flush failed'')) None"
  let ?e = "\<lparr>client = ?cl, started = True, startOnce = True, stopOnce = False\<rparr>"
  let ?e1 = "\<lparr>client = ?cl, started = False, startOnce = True, stopOnce = True\<rparr>"
  let ?env1 = "\<lparr>client_state = 1::nat,
                events = [Call_Stop (), Write_started False :: (unit, nat) event]\<rparr>"
  have a: "ControllerState ?e = Running" by (simp add: ControllerState_def)
  have b: "Shutdown ?e () env0 = (Some (ClientError ''flush failed''), ?e1, ?env1)"
    by (simp add: Shutdown_def answering_def env0_def)
  have c: "exec (Spans Suc) [OpShutdown (), OpStart (), OpShutdown ()] ?e1 ?env1
             = ([None, Some errAlreadyStarted, None], ?e1, ?env1)"
    by (simp add: Shutdown_def Start_def)
  from Shutdown_first_result_then_nil [OF a b c] a b c show ?thesis by simp
qed

text \<open>
  The claim C2 as it was worded fails: with a client whose \<open>Stop\<close> fails, the second
  \<open>Shutdown\<close> returns \<open>nil\<close>, not the error of the first.
\<close>

theorem Shutdown_second_result_differs:
  "fst (exec (Spans Suc) [OpStart (), OpShutdown (), OpShutdown ()]
          (NewUnstartedExporter (answering None (Some (ClientError ''flush failed'')) None)) env0)
     = [None, Some (ClientError ''flush failed''), None]"
  by (simp add: Start_def Shutdown_def NewUnstartedExporter_def answering_def env0_def)


subsection \<open>Start\<close>

lemma no_Shutdown_step:
  assumes "step transform a e env = (r, e', env')" and "\<not> is_OpShutdown a" and "startOnce e"
  shows "e' = e \<and> calls is_Call_Stop env' = calls is_Call_Stop env"
proof (cases a)
  case (OpStart ctx)
  with assms show ?thesis by (simp add: Start_fired)
next
  case (OpShutdown ctx)
  with assms show ?thesis by simp
next
  case (OpExportSpans ctx ss)
  with assms have ex: "ExportSpans transform e ctx ss env = (r, e', env')" by simp
  from ExportSpans_exporter [OF ex] ExportSpans_calls [OF ex] show ?thesis by simp
qed

lemma no_Shutdown_exec:
  assumes "exec transform ops e env = (rs, e', env')"
    and "\<not> list_ex is_OpShutdown ops" and "startOnce e"
  shows "e' = e \<and> calls is_Call_Stop env' = calls is_Call_Stop env"
  using assms
proof (induction ops arbitrary: env rs)
  case Nil
  then show ?case by simp
next
  case (Cons a ops)
  obtain r e1 env1 where st: "step transform a e env = (r, e1, env1)"
    by (cases "step transform a e env") auto
  obtain rs1 where ex: "exec transform ops e1 env1 = (rs1, e', env')"
    using Cons.prems(1) st by (auto split: prod.splits)
  from Cons.prems(2) have a: "\<not> is_OpShutdown a" and rest: "\<not> list_ex is_OpShutdown ops"
    by simp_all
  from no_Shutdown_step [OF st a Cons.prems(3)]
  have e1: "e1 = e" and c1: "calls is_Call_Stop env1 = calls is_Call_Stop env" by simp_all
  from Cons.IH [of env1 rs1] ex rest Cons.prems(3) e1 c1 show ?case by simp
qed

text \<open>
  C4. The first \<open>Start\<close> on a new exporter writes \<open>started\<close> and then calls the
  client's \<open>Start\<close>, in this order, and returns what the client returned; whatever the
  client answered, the exporter is running afterwards. In particular, when the client
  answers with an error, \<open>Start\<close> returns that error and the exporter is running all the
  same. After any further calls that are not a \<open>Shutdown\<close> it is still running, no
  \<open>Stop\<close> has reached the client, and the next \<open>Shutdown\<close> calls the client's \<open>Stop\<close>,
  once, and returns its answer.
\<close>

theorem Start_failure_leaves_Running:
  assumes "Start (NewUnstartedExporter cl) ctx env = (r, e1, env1)"
    and "\<not> list_ex is_OpShutdown ops"
    and "exec transform ops e1 env1 = (rs, e2, env2)"
    and "Shutdown e2 ctx' env2 = (r', e3, env3)"
  shows "r = fst (Client_Start cl ctx (client_state env))
       \<and> client_state env1 = snd (Client_Start cl ctx (client_state env))
       \<and> events env1 = events env @ [Write_started True, Call_Start ctx]
       \<and> e1 = \<lparr>client = cl, started = True, startOnce = True, stopOnce = False\<rparr>
       \<and> ControllerState e1 = Running
       \<and> (Client_Start cl ctx (client_state env) = (Some err, c') \<longrightarrow>
            r = Some err \<and> ControllerState e1 = Running)
       \<and> ControllerState e2 = Running
       \<and> calls is_Call_Stop env2 = calls is_Call_Stop env
       \<and> r' = fst (Client_Stop cl ctx' (client_state env2))
       \<and> events env3 = events env2 @ [Call_Stop ctx', Write_started False]
       \<and> calls is_Call_Stop env3 = Suc (calls is_Call_Stop env)
       \<and> ControllerState e3 = Stopped"
proof -
  let ?e = "NewUnstartedExporter cl"
  have fresh: "\<not> startOnce ?e" by (simp add: NewUnstartedExporter_def)
  from assms(1) Start_first [OF fresh, of ctx env]
  have r: "r = fst (Client_Start cl ctx (client_state env))"
    and e1: "e1 = \<lparr>client = cl, started = True, startOnce = True, stopOnce = False\<rparr>"
    and env1: "env1 = env\<lparr>client_state := snd (Client_Start cl ctx (client_state env)),
                          events := events env @ [Write_started True, Call_Start ctx]\<rparr>"
    by (simp_all add: NewUnstartedExporter_def)
  from e1 have once: "startOnce e1" by simp
  from no_Shutdown_exec [OF assms(3) assms(2) once]
  have e2: "e2 = e1" and c2: "calls is_Call_Stop env2 = calls is_Call_Stop env1" by simp_all
  from e1 e2 have run: "started e2" "\<not> stopOnce e2" and cl: "client e2 = cl"
    by simp_all
  from assms(4) Shutdown_first [OF run, of ctx' env2] cl
  have r': "r' = fst (Client_Stop cl ctx' (client_state env2))"
    and e3: "e3 = e2\<lparr>started := False, stopOnce := True\<rparr>"
    and env3: "events env3 = events env2 @ [Call_Stop ctx', Write_started False]"
    by auto
  from env1 c2 have c: "calls is_Call_Stop env2 = calls is_Call_Stop env"
    by (simp add: calls_def)
  from env3 c have c3: "calls is_Call_Stop env3 = Suc (calls is_Call_Stop env)"
    by (simp add: calls_def)
  from r env1 e1 e2 r' e3 env3 c c3 show ?thesis
    by (simp add: ControllerState_def)
qed

theorem Start_failure_leaves_Running_witness:
  "Client_Start down () (client_state env0) = (Some (ClientError ''no route''), 1)
   \<and> Start (NewUnstartedExporter down) () env0
     = (Some (ClientError ''no route''),
        \<lparr>client = down, started = True, startOnce = True, stopOnce = False\<rparr>,
        \<lparr>client_state = 1, events = [Write_started True, Call_Start ()]\<rparr>)
   \<and> \<not> list_ex is_OpShutdown [OpStart (), OpExportSpans () [] :: (unit, nat) op]
   \<and> exec (Spans Suc) [OpStart (), OpExportSpans () []]
        \<lparr>client = down, started = True, startOnce = True, stopOnce = False\<rparr>
        \<lparr>client_state = 1, events = [Write_started True, Call_Start ()]\<rparr>
     = ([Some errAlreadyStarted, None],
        \<lparr>client = down, started = True, startOnce = True, stopOnce = False\<rparr>,
        \<lparr>client_state = 1, events = [Write_started True, Call_Start ()]\<rparr>)
   \<and> Shutdown \<lparr>client = down, started = True, startOnce = True, stopOnce = False\<rparr> ()
        \<lparr>client_state = 1, events = [Write_started True, Call_Start ()]\<rparr>
     = (Some (ClientError ''no route''),
        \<lparr>client = down, started = False, startOnce = True, stopOnce = True\<rparr>,
        \<lparr>client_state = 2,
         events = [Write_started True, Call_Start (), Call_Stop (), Write_started False]\<rparr>)
   \<and> ControllerState \<lparr>client = down, started = True, startOnce = True, stopOnce = False\<rparr>
     = Running
   \<and> Start (NewUnstartedExporter up) () env0
     = (None, \<lparr>client = up, started = True, startOnce = True, stopOnce = False\<rparr>,
        \<lparr>client_state = 1, events = [Write_started True, Call_Start ()]\<rparr>)
   \<and> Shutdown \<lparr>client = up, started = True, startOnce = True, stopOnce = False\<rparr> ()
        \<lparr>client_state = 1, events = [Write_started True, Call_Start ()]\<rparr>
     = (None, \<lparr>client = up, started = False, startOnce = True, stopOnce = True\<rparr>,
        \<lparr>client_state = 2,
         events = [Write_started True, Call_Start (), Call_Stop (), Write_started False]\<rparr>)
   \<and> ControllerState \<lparr>client = up, started = True, startOnce = True, stopOnce = False\<rparr>
     = Running"
proof -
  let ?e1 = "\<lparr>client = down, started = True, startOnce = True, stopOnce = False\<rparr>"
  let ?u1 = "\<lparr>client = up, started = True, startOnce = True, stopOnce = False\<rparr>"
  let ?env1 = "\<lparr>client_state = 1::nat,
                events = [Write_started True, Call_Start () :: (unit, nat) event]\<rparr>"
  let ?env3 = "\<lparr>client_state = 2::nat,
                events = [Write_started True, Call_Start (), Call_Stop (), Write_started False
                          :: (unit, nat) event]\<rparr>"
  have a: "Client_Start down () (client_state env0) = (Some (ClientError ''no route''), 1)"
    by (simp add: down_def answering_def env0_def)
  have b: "Start (NewUnstartedExporter down) () env0 = (Some (ClientError ''no route''), ?e1, ?env1)"
    by (simp add: Start_def NewUnstartedExporter_def down_def answering_def env0_def)
  have c: "\<not> list_ex is_OpShutdown [OpStart (), OpExportSpans () [] :: (unit, nat) op]"
    by simp
  have d: "exec (Spans Suc) [OpStart (), OpExportSpans () []] ?e1 ?env1
             = ([Some errAlreadyStarted, None], ?e1, ?env1)"
    by (simp add: Start_def ExportSpans_def Spans_def)
  have e: "Shutdown ?e1 () ?env1
     = (Some (ClientError ''no route''),
        \<lparr>client = down, started = False, startOnce = True, stopOnce = True\<rparr>, ?env3)"
    by (simp add: Shutdown_def down_def answering_def)
  have b': "Start (NewUnstartedExporter up) () env0 = (None, ?u1, ?env1)"
    by (simp add: Start_def NewUnstartedExporter_def up_def answering_def env0_def)
  have c': "\<not> list_ex is_OpShutdown ([] :: (unit, nat) op list)" by simp
  have d': "exec (Spans Suc) [] ?u1 ?env1 = ([], ?u1, ?env1)" by simp
  have e': "Shutdown ?u1 () ?env1
     = (None, \<lparr>client = up, started = False, startOnce = True, stopOnce = True\<rparr>, ?env3)"
    by (simp add: Shutdown_def up_def answering_def)
  from Start_failure_leaves_Running [OF b c d e, of "ClientError ''no route''" 1]
    Start_failure_leaves_Running [OF b' c' d' e'] a b c d e b' e'
  show ?thesis by (simp add: ControllerState_def)
qed

subsection \<open>Construction\<close>

text \<open>
  C10. \<open>NewExporter\<close> builds an exporter on the client and starts it. When the client's
  \<open>Start\<close> answers with an error, \<open>NewExporter\<close> returns \<open>nil\<close> and that error; when it
  answers \<open>nil\<close>, \<open>NewExporter\<close> returns the exporter, started, and no error. In both
  cases the client's \<open>Start\<close> has been called once.
\<close>

theorem NewExporter_result:
  "(Client_Start cl ctx (client_state env) = (Some err, c') \<longrightarrow>
      NewExporter ctx cl env =
        (None, Some err,
         env\<lparr>client_state := c', events := events env @ [Write_started True, Call_Start ctx]\<rparr>))
   \<and> (Client_Start cl ctx (client_state env) = (None, c') \<longrightarrow>
      NewExporter ctx cl env =
        (Some \<lparr>client = cl, started = True, startOnce = True, stopOnce = False\<rparr>, None,
         env\<lparr>client_state := c', events := events env @ [Write_started True, Call_Start ctx]\<rparr>))"
  by (simp add: NewExporter_def Start_def NewUnstartedExporter_def Let_def)

theorem NewExporter_result_witness:
  "Client_Start down () (client_state env0) = (Some (ClientError ''no route''), 1)
   \<and> NewExporter () down env0
     = (None, Some (ClientError ''no route''),
        \<lparr>client_state = 1, events = [Write_started True, Call_Start ()]\<rparr>)
   \<and> Client_Start up () (client_state env0) = (None, 1)
   \<and> NewExporter () up env0
     = (Some \<lparr>client = up, started = True, startOnce = True, stopOnce = False\<rparr>, None,
        \<lparr>client_state = 1, events = [Write_started True, Call_Start ()]\<rparr>)"
proof -
  have a: "Client_Start down () (client_state env0) = (Some (ClientError ''no route''), 1)"
    by (simp add: down_def answering_def env0_def)
  have b: "Client_Start up () (client_state env0) = (None, 1)"
    by (simp add: up_def answering_def env0_def)
  from NewExporter_result [of down "()" env0 "ClientError ''no route''" 1] a
  have "NewExporter () down env0
     = (None, Some (ClientError ''no route''),
        \<lparr>client_state = 1, events = [Write_started True, Call_Start ()]\<rparr>)"
    by (simp add: env0_def)
  moreover from NewExporter_result [of up "()" env0 _ 1] b
  have "NewExporter () up env0
     = (Some \<lparr>client = up, started = True, startOnce = True, stopOnce = False\<rparr>, None,
        \<lparr>client_state = 1, events = [Write_started True, Call_Start ()]\<rparr>)"
    by (simp add: env0_def)
  ultimately show ?thesis using a b by simp
qed

subsection \<open>The lifecycle\<close>














end
